theory Spec2Isabelle
  imports Complex_Main "HOL-Library.Word"
begin

section \<open>Remote control manager (rcmanager.py)\<close>

text \<open>
  The manager holds one attribute, \<open>remote_controller\<close>: \<open>None\<close> or the uuid of the
  client in control. A client uuid is a Python string. The handlers fire events; the
  events a handler fires are returned as a list, in the order they are fired.
\<close>

type_synonym uuid = string

record rcmanager =
  remote_controller :: "uuid option"

text \<open>
  \<open>send(uuid, {'component': 'isomer.robot.rcmanager', 'action': a, 'data': d})\<close> is
  \<open>Send uuid a d\<close>; \<open>control_update(control_data)\<close> fired on the machineroom channel is
  \<open>Control_update control_data\<close>; the warning of \<open>data\<close> is \<open>Log_invalid_data\<close>.
\<close>

datatype 'p rc_event =
    Send uuid string bool
  | Control_update 'p
  | Log_invalid_data

text \<open>\<open>__init__\<close>: nobody is in control.\<close>

definition rcm_init :: rcmanager where
  "rcm_init = \<lparr>remote_controller = None\<rparr>"

text \<open>
  Python's truth value of the attribute, as \<open>not self.remote_controller\<close> reads it:
  \<open>None\<close> and the empty string are false, every other string is true.
\<close>

definition truthy :: "uuid option \<Rightarrow> bool" where
  "truthy rc = (case rc of None \<Rightarrow> False | Some u \<Rightarrow> u \<noteq> [])"

definition clientdisconnect :: "rcmanager \<Rightarrow> uuid \<Rightarrow> rcmanager" where
  "clientdisconnect m clientuuid =
     (if Some clientuuid = remote_controller m
      then m\<lparr>remote_controller := None\<rparr>
      else m)"

definition control_request :: "rcmanager \<Rightarrow> uuid \<Rightarrow> rcmanager \<times> 'p rc_event list" where
  "control_request m client_uuid =
     (if \<not> truthy (remote_controller m)
      then (m\<lparr>remote_controller := Some client_uuid\<rparr>,
            [Send client_uuid ''control_request'' True])
      else (m, [Send client_uuid ''control_request'' False]))"

definition control_release :: "rcmanager \<Rightarrow> uuid \<Rightarrow> rcmanager \<times> 'p rc_event list" where
  "control_release m client_uuid =
     (if remote_controller m = Some client_uuid
      then (m\<lparr>remote_controller := None\<rparr>,
            [Send client_uuid ''control_release'' True])
      else (m, []))"

definition data :: "rcmanager \<Rightarrow> uuid \<Rightarrow> 'p \<Rightarrow> rcmanager \<times> 'p rc_event list" where
  "data m client_uuid control_data =
     (if Some client_uuid = remote_controller m
      then (m, [Control_update control_data])
      else (m, [Log_invalid_data]))"

section \<open>Machineroom (machineroom.py)\<close>

subsection \<open>Bytes, errors and effects\<close>

text \<open>
  A Python \<open>bytes\<close> object is a list of 8-bit words. \<open>bytes([x])\<close> raises
  \<open>ValueError\<close> unless \<open>0 <= x < 256\<close>. Reading a missing key of a dict (or a missing
  index of a list) raises \<open>KeyError\<close> (\<open>IndexError\<close>); both are \<open>LookupError\<close>s.
\<close>

type_synonym byte = "8 word"
type_synonym bytes = "byte list"

datatype error = ValueError | LookupError

definition bytes1 :: "int \<Rightarrow> error + bytes" where
  "bytes1 x = (if 0 \<le> x \<and> x < 256 then Inr [word_of_int x] else Inl ValueError)"

text \<open>
  What a handler does to the outside: \<open>Write cmd\<close> is
  \<open>fireEvent(write(cmd), "port")\<close>; the other three are the log lines that report a
  dropped command or a rejected update ("Cannot transmit, serial port not available!",
  "Illegal command:", "Incorrect control value received:"). The purely informational log
  lines are left out.
\<close>

datatype effect =
    Write bytes
  | Log_unavailable
  | Log_illegal bytes
  | Log_incorrect real

text \<open>
  How a handler ends: it runs to its end (\<open>Done\<close>), leaves through the \<open>return\<close> of the
  range check (\<open>Rejected\<close>), or an exception leaves it (\<open>Raised\<close>). What it did before
  stays done in every case.
\<close>

datatype outcome = Done | Rejected | Raised error

subsection \<open>Class attributes and configuration\<close>

definition servo :: bytes where "servo = [0x73]"
definition pin :: bytes where "pin = [0x70]"
definition sep :: bytes where "sep = [0x2C]"
definition terminator :: bytes where "terminator = [13]"

definition targets :: "(string \<times> int) list" where
  "targets = [(''machine'', 1), (''rudder'', 0), (''pump'', 2)]"

record binding =
  name :: string
  flags :: "string list option"

text \<open>
  The entries of \<open>controller_mapping\<close>; an entry without the key \<open>'flags'\<close> has
  \<open>flags = None\<close>. The entries are listed in the order in which the dicts yield them.
\<close>

abbreviation machine_binding :: binding where
  "machine_binding \<equiv> \<lparr>name = ''machine'', flags = Some [''inverted'']\<rparr>"

abbreviation rudder_binding :: binding where
  "rudder_binding \<equiv> \<lparr>name = ''rudder'', flags = None\<rparr>"

abbreviation pump_binding :: binding where
  "pump_binding \<equiv> \<lparr>name = ''pump'', flags = None\<rparr>"

definition controller_axes :: "(int \<times> binding) list" where
  "controller_axes = [(1, machine_binding), (2, rudder_binding)]"

definition controller_buttons :: "(int \<times> binding) list" where
  "controller_buttons = [(3, pump_binding)]"

definition rudder_channel :: int where "rudder_channel = 0"
definition machine_channel :: int where "machine_channel = 1"
definition pump_channel :: int where "pump_channel = 2"

text \<open>\<open>item.get('flags', [])\<close>\<close>

definition get_flags :: "binding \<Rightarrow> string list" where
  "get_flags item = (case flags item of None \<Rightarrow> [] | Some fs \<Rightarrow> fs)"

subsection \<open>State\<close>

text \<open>
  The dict \<open>_values\<close> is read and written under the integer channel of a target by
  \<open>__init__\<close> and the control update, and written under the name of a target (a string) by
  the machine, rudder and pump handlers. An integer key and a string key never coincide, so
  the dict is kept as two maps: \<open>values_map\<close> for the integer keys and \<open>named_values\<close> for
  the string keys.
\<close>

record machineroom =
  maestro :: bool
  values_map :: "int \<rightharpoonup> int"
  named_values :: "string \<rightharpoonup> int"
  serial_open :: bool

text \<open>\<open>__init__\<close>: compact protocol, every target's value 0, link closed.\<close>

definition mr_init :: machineroom where
  "mr_init = \<lparr>maestro = True,
             values_map = fold (\<lambda>item m. m(item \<mapsto> 0)) (map snd targets) Map.empty,
             named_values = Map.empty,
             serial_open = False\<rparr>"

text \<open>
  The control data of a \<open>control_update\<close> event: \<open>controldata['axes'][key]\<close> and
  \<open>controldata['buttons'][key]\<close>. An axis value is a finite Python float (or int); the
  only arithmetic done on it is the product with 128, which is exact on floats, so it is
  a real number here. A button value is an integer (a bool is 0 or 1).
\<close>

record controldata =
  axes :: "int \<rightharpoonup> real"
  buttons :: "int \<rightharpoonup> int"

subsection \<open>Sending\<close>

definition send_command :: "machineroom \<Rightarrow> bytes \<Rightarrow> effect list" where
  "send_command s command =
     (if \<not> serial_open s then [Log_unavailable]
      else
        let cmd = (if \<not> maestro s then command @ terminator else command)
        in if length cmd \<noteq> 3 then [Log_illegal cmd] else [Write cmd])"

definition handle_servo :: "machineroom \<Rightarrow> int \<Rightarrow> int \<Rightarrow> error + effect list" where
  "handle_servo s channel val =
     (if maestro s then
        (let val' = min val 255 in
         case bytes1 channel of Inl e \<Rightarrow> Inl e
         | Inr cb \<Rightarrow>
             (case bytes1 val' of Inl e \<Rightarrow> Inl e
              | Inr vb \<Rightarrow> Inr (send_command s ([0xFF] @ cb @ vb))))
      else
        (case bytes1 channel of Inl e \<Rightarrow> Inl e
         | Inr cb \<Rightarrow>
             (case bytes1 val of Inl e \<Rightarrow> Inl e
              | Inr vb \<Rightarrow> Inr (send_command s (servo @ sep @ cb @ sep @ vb)))))"

definition set_digital_pin :: "machineroom \<Rightarrow> int \<Rightarrow> int \<Rightarrow> error + effect list" where
  "set_digital_pin s p val =
     (let mode = (if val \<ge> 127 then 255 else 0) in
      if \<not> maestro s then
        (case bytes1 p of Inl e \<Rightarrow> Inl e
         | Inr pb \<Rightarrow>
             (case bytes1 mode of Inl e \<Rightarrow> Inl e
              | Inr mb \<Rightarrow> Inr (send_command s (pin @ sep @ pb @ sep @ mb))))
      else handle_servo s p mode)"

subsection \<open>Link opened\<close>

text \<open>
  The calls of a handler in sequence: the effects add up, and the first exception ends the
  sequence.
\<close>

fun in_sequence :: "(error + effect list) list \<Rightarrow> effect list \<times> outcome" where
  "in_sequence [] = ([], Done)"
| "in_sequence (Inl e # cs) = ([], Raised e)"
| "in_sequence (Inr effs # cs) = (case in_sequence cs of (effs', oc) \<Rightarrow> (effs @ effs', oc))"

definition opened :: "machineroom \<Rightarrow> machineroom \<times> effect list \<times> outcome" where
  "opened s =
     (let s' = s\<lparr>serial_open := True\<rparr> in
      (s', in_sequence
        ((if \<not> maestro s'
          then [Inr (send_command s' [0x6C, 0x2C, 0x31]), Inr (send_command s' [0x76])]
          else []) @
         [handle_servo s' machine_channel 0,
          handle_servo s' rudder_channel 127,
          set_digital_pin s' pump_channel 0] @
         (if \<not> maestro s'
          then [Inr (send_command s' [0x6C, 0x2C, 0x30]),
                Inr (send_command s' [0x6D, 0x2C, 0x48, 0x46, 0x4F, 0x53, 0x20,
                                      0x43, 0x6F, 0x6E, 0x74, 0x72, 0x6F, 0x6C])]
          else []))))"

subsection \<open>Control update\<close>

text \<open>Python's \<open>int()\<close> of a float: the fractional part is dropped, towards zero.\<close>

definition py_int :: "real \<Rightarrow> int" where
  "py_int x = (if 0 \<le> x then \<lfloor>x\<rfloor> else \<lceil>x\<rceil>)"

text \<open>Lines 286 to 289: the new value of an axis.\<close>

definition axis_value :: "binding \<Rightarrow> real \<Rightarrow> int" where
  "axis_value item raw_value =
     (if ''inverted'' \<in> set (get_flags item)
      then min (128 - py_int (raw_value * 128)) 255
      else min (128 + py_int (raw_value * 128)) 255)"

text \<open>
  A \<open>for\<close> loop whose body can end the handler: the body runs on each element in
  turn, and the first body that does not end in \<open>Done\<close> ends the loop with its outcome.
\<close>

fun for_loop ::
  "('a \<Rightarrow> machineroom \<Rightarrow> machineroom \<times> effect list \<times> outcome) \<Rightarrow> 'a list \<Rightarrow>
   machineroom \<Rightarrow> machineroom \<times> effect list \<times> outcome" where
  "for_loop body [] s = (s, [], Done)"
| "for_loop body (x # xs) s =
     (case body x s of
        (s', effs, Done) \<Rightarrow>
          (case for_loop body xs s' of (s'', effs', oc) \<Rightarrow> (s'', effs @ effs', oc))
      | (s', effs, oc) \<Rightarrow> (s', effs, oc))"

text \<open>
  Lines 293 to 296 and 303 to 306, shared by both loops: send when the stored value
  differs, then store the new value.
\<close>

definition send_on_change ::
  "(machineroom \<Rightarrow> int \<Rightarrow> int \<Rightarrow> error + effect list) \<Rightarrow> binding \<Rightarrow> int \<Rightarrow>
   machineroom \<Rightarrow> machineroom \<times> effect list \<times> outcome" where
  "send_on_change sender item new_value s =
     (case map_of targets (name item) of
        None \<Rightarrow> (s, [], Raised LookupError)
      | Some target \<Rightarrow>
          (case values_map s target of
             None \<Rightarrow> (s, [], Raised LookupError)
           | Some old \<Rightarrow>
               if old \<noteq> new_value then
                 (case sender s target new_value of
                    Inl e \<Rightarrow> (s, [], Raised e)
                  | Inr effs \<Rightarrow>
                      (s\<lparr>values_map := (values_map s)(target \<mapsto> new_value)\<rparr>, effs, Done))
               else (s, [], Done)))"

definition axis_body ::
  "controldata \<Rightarrow> int \<times> binding \<Rightarrow> machineroom \<Rightarrow> machineroom \<times> effect list \<times> outcome" where
  "axis_body cd = (\<lambda>(key, item) s.
     case axes cd key of
       None \<Rightarrow> (s, [], Raised LookupError)
     | Some raw_value \<Rightarrow>
         if raw_value < -1 \<or> raw_value > 1 then (s, [Log_incorrect raw_value], Rejected)
         else send_on_change handle_servo item (axis_value item raw_value) s)"

definition button_body ::
  "controldata \<Rightarrow> int \<times> binding \<Rightarrow> machineroom \<Rightarrow> machineroom \<times> effect list \<times> outcome" where
  "button_body cd = (\<lambda>(key, item) s.
     case buttons cd key of
       None \<Rightarrow> (s, [], Raised LookupError)
     | Some new_value \<Rightarrow> send_on_change set_digital_pin item new_value s)"

definition on_control_update ::
  "machineroom \<Rightarrow> controldata \<Rightarrow> machineroom \<times> effect list \<times> outcome" where
  "on_control_update s cd =
     (case for_loop (axis_body cd) controller_axes s of
        (s', effs, Done) \<Rightarrow>
          (case for_loop (button_body cd) controller_buttons s' of
             (s'', effs', oc) \<Rightarrow> (s'', effs @ effs', oc))
      | (s', effs, oc) \<Rightarrow> (s', effs, oc))"

subsection \<open>The handlers of a single value\<close>





subsection \<open>The component as an event handler\<close>




section \<open>Notions used in the statements\<close>

text \<open>The frames written to the port among the effects, in order.\<close>

fun written :: "effect list \<Rightarrow> bytes list" where
  "written [] = []"
| "written (Write cmd # effs) = cmd # written effs"
| "written (e # effs) = written effs"

text \<open>The channel a three-byte frame addresses: its second byte.\<close>

definition frame_channel :: "bytes \<Rightarrow> int option" where
  "frame_channel cmd = (case cmd of [m, ch, v] \<Rightarrow> Some (uint ch) | _ \<Rightarrow> None)"

text \<open>
  The (channel, value) pairs that the bindings give for the control data: the target's
  channel with the new value of lines 286 to 291 for an axis in range, and with the button's
  value (lines 299 to 301) for a button.
\<close>

definition normalized :: "controldata \<Rightarrow> (int \<times> int) list" where
  "normalized cd =
     concat (map (\<lambda>(key, item).
        case axes cd key of
          None \<Rightarrow> []
        | Some raw_value \<Rightarrow>
            (case map_of targets (name item) of
               None \<Rightarrow> []
             | Some target \<Rightarrow>
                 if raw_value < -1 \<or> raw_value > 1 then []
                 else [(target, axis_value item raw_value)])) controller_axes) @
     concat (map (\<lambda>(key, item).
        case buttons cd key of
          None \<Rightarrow> []
        | Some new_value \<Rightarrow>
            (case map_of targets (name item) of
               None \<Rightarrow> []
             | Some target \<Rightarrow> [(target, new_value)])) controller_buttons)"

text \<open>
  The axis rule in the words of the specification: round to nearest, then clamp at both
  bounds.
\<close>

definition clamp :: "int \<Rightarrow> int \<Rightarrow> int \<Rightarrow> int" where
  "clamp x lo hi = max lo (min x hi)"

definition spec_axis_value :: "bool \<Rightarrow> real \<Rightarrow> int" where
  "spec_axis_value inverted raw =
     (if inverted then clamp (128 - round (raw * 128)) 0 255
      else clamp (128 + round (raw * 128)) 0 255)"

section \<open>Sample inputs\<close>

text \<open>The component after \<open>__init__\<close> and the link-opened event.\<close>

definition mr_linked :: machineroom where
  "mr_linked = fst (opened mr_init)"

text \<open>
  Four control updates: both axes centred and the button off; the machine axis half way,
  the rudder centred and the button on; the machine axis out of range; the machine axis half
  way and the rudder axis out of range.
\<close>

definition update_centred :: controldata where
  "update_centred = \<lparr>axes = [1 \<mapsto> 0, 2 \<mapsto> 0], buttons = [3 \<mapsto> 0]\<rparr>"

definition update_half :: controldata where
  "update_half = \<lparr>axes = [1 \<mapsto> 1 / 2, 2 \<mapsto> 0], buttons = [3 \<mapsto> 1]\<rparr>"

definition update_bad_machine :: controldata where
  "update_bad_machine = \<lparr>axes = [1 \<mapsto> - 2, 2 \<mapsto> 1 / 2], buttons = [3 \<mapsto> 1]\<rparr>"

definition update_bad_rudder :: controldata where
  "update_bad_rudder = \<lparr>axes = [1 \<mapsto> 1 / 2, 2 \<mapsto> 2], buttons = [3 \<mapsto> 0]\<rparr>"

section \<open>Auxiliary facts\<close>

subsection \<open>Integer conversion and the axis value\<close>

lemma py_int_mono: "x \<le> y \<Longrightarrow> py_int x \<le> py_int y"
proof -
  assume xy: "x \<le> y"
  consider "0 \<le> x" | "x < 0" "y < 0" | "x < 0" "0 \<le> y" by linarith
  then show ?thesis
  proof cases
    case 1 with xy show ?thesis by (simp add: py_int_def floor_mono)
  next
    case 2 with xy show ?thesis by (simp add: py_int_def ceiling_mono)
  next
    case 3
    have "\<lceil>x\<rceil> \<le> 0" using 3 by (simp add: ceiling_le_zero)
    moreover have "0 \<le> \<lfloor>y\<rfloor>" using 3 by simp
    ultimately have "\<lceil>x\<rceil> \<le> \<lfloor>y\<rfloor>" by linarith
    then show ?thesis using 3 by (simp add: py_int_def)
  qed
qed

lemma py_int_bounds: "- 128 \<le> x \<Longrightarrow> x \<le> 128 \<Longrightarrow> - 128 \<le> py_int x \<and> py_int x \<le> 128"
  unfolding py_int_def by (auto simp: le_floor_iff floor_le_iff ceiling_le_iff le_ceiling_iff) 

lemma axis_value_range: "- 1 \<le> r \<Longrightarrow> r \<le> 1 \<Longrightarrow> 0 \<le> axis_value item r \<and> axis_value item r \<le> 255"
  using py_int_bounds[of "r * 128"] unfolding axis_value_def by auto

subsection \<open>One command\<close>

lemma uint_byte: "0 \<le> t \<Longrightarrow> t < 256 \<Longrightarrow> uint (word_of_int t :: byte) = t"
  by (simp add: uint_word_of_int_eq take_bit_int_eq_self)

lemma handle_servo_ok:
  assumes "0 \<le> t" "t < 256" "0 \<le> v" "v < 256"
  shows "handle_servo s t v =
     Inr (send_command s (if maestro s then [0xFF, word_of_int t, word_of_int v]
                          else [0x73, 0x2C, word_of_int t, 0x2C, word_of_int v]))"
  using assms by (simp add: handle_servo_def bytes1_def servo_def sep_def min_def)

lemma set_digital_pin_ok:
  assumes "0 \<le> t" "t < 256"
  shows "set_digital_pin s t v =
     Inr (send_command s (if maestro s then [0xFF, word_of_int t, if v \<ge> 127 then 255 else 0]
                          else [0x70, 0x2C, word_of_int t, 0x2C, if v \<ge> 127 then 255 else 0]))"
  using assms by (simp add: set_digital_pin_def handle_servo_def bytes1_def pin_def sep_def min_def Let_def)

lemma written_send_command:
  "written (send_command s cmd) =
     (if serial_open s \<and> length (if maestro s then cmd else cmd @ terminator) = 3
      then [if maestro s then cmd else cmd @ terminator] else [])"
  by (simp add: send_command_def Let_def)

lemma written_append: "written (xs @ ys) = written xs @ written ys"
  by (induction xs rule: written.induct) simp_all

subsection \<open>One binding of a control update\<close>

lemma send_on_change_result:
  assumes "map_of targets (name item) = Some t" "0 \<le> t" "t < 256"
    and "sender = handle_servo \<and> 0 \<le> v \<and> v < 256 \<or> sender = set_digital_pin"
  shows "\<exists>frame. (maestro s \<longrightarrow> length frame = 3 \<and> frame_channel frame = Some t) \<and>
           (\<not> maestro s \<longrightarrow> length frame = 5) \<and>
           send_on_change sender item v s =
             (case values_map s t of
                None \<Rightarrow> (s, [], Raised LookupError)
              | Some old \<Rightarrow>
                  if old \<noteq> v
                  then (s\<lparr>values_map := (values_map s)(t \<mapsto> v)\<rparr>, send_command s frame, Done)
                  else (s, [], Done))"
proof -
  from assms(4) show ?thesis
  proof
    assume a: "sender = handle_servo \<and> 0 \<le> v \<and> v < 256"
    show ?thesis
      by (rule exI[of _ "if maestro s then [0xFF, word_of_int t, word_of_int v]
                          else [0x73, 0x2C, word_of_int t, 0x2C, word_of_int v]"])
         (use assms(1-3) a in \<open>simp add: send_on_change_def handle_servo_ok frame_channel_def
            uint_byte split: option.splits\<close>)
  next
    assume a: "sender = set_digital_pin"
    show ?thesis
      by (rule exI[of _ "if maestro s then [0xFF, word_of_int t, if v \<ge> 127 then 255 else 0]
                          else [0x70, 0x2C, word_of_int t, 0x2C, if v \<ge> 127 then 255 else 0]"])
         (use assms(1-3) a in \<open>simp add: send_on_change_def set_digital_pin_ok frame_channel_def
            uint_byte split: option.splits\<close>)
  qed
qed

lemma send_on_change_props:
  assumes tgt: "map_of targets (name item) = Some t" "0 \<le> t" "t < 256"
    and snd: "sender = handle_servo \<and> 0 \<le> v \<and> v < 256 \<or> sender = set_digital_pin"
    and res: "send_on_change sender item v s = (s', e, oc)"
  shows "maestro s' = maestro s" and "serial_open s' = serial_open s"
    and "c \<noteq> t \<Longrightarrow> values_map s' c = values_map s c"
    and "cmd \<in> set (written e) \<Longrightarrow> frame_channel cmd = Some t"
    and "oc \<noteq> Done \<Longrightarrow> s' = s \<and> e = []"
    and "oc = Done \<Longrightarrow> values_map s' t = Some v"
    and "values_map s t = Some v \<Longrightarrow> s' = s \<and> e = []"
    and "\<not> serial_open s \<Longrightarrow> set e \<subseteq> {Log_unavailable}"
    and "\<not> maestro s \<Longrightarrow> written e = []"
    and "oc \<noteq> Rejected"
proof -
  obtain frame where fr: "maestro s \<longrightarrow> length frame = 3 \<and> frame_channel frame = Some t"
      "\<not> maestro s \<longrightarrow> length frame = 5"
    and eq: "send_on_change sender item v s =
             (case values_map s t of
                None \<Rightarrow> (s, [], Raised LookupError)
              | Some old \<Rightarrow>
                  if old \<noteq> v
                  then (s\<lparr>values_map := (values_map s)(t \<mapsto> v)\<rparr>, send_command s frame, Done)
                  else (s, [], Done))"
    using send_on_change_result[OF tgt snd, of s] by blast
  from eq res have r: "(s', e, oc) =
             (case values_map s t of
                None \<Rightarrow> (s, [], Raised LookupError)
              | Some old \<Rightarrow>
                  if old \<noteq> v
                  then (s\<lparr>values_map := (values_map s)(t \<mapsto> v)\<rparr>, send_command s frame, Done)
                  else (s, [], Done))" by simp
  show "maestro s' = maestro s" using r by (auto split: option.splits if_splits)
  show "serial_open s' = serial_open s" using r by (auto split: option.splits if_splits)
  show "c \<noteq> t \<Longrightarrow> values_map s' c = values_map s c"
    using r by (auto split: option.splits if_splits)
  show "cmd \<in> set (written e) \<Longrightarrow> frame_channel cmd = Some t"
    using r fr by (auto simp: written_send_command terminator_def split: option.splits if_splits)
  show "oc \<noteq> Done \<Longrightarrow> s' = s \<and> e = []" using r by (auto split: option.splits if_splits)
  show "oc = Done \<Longrightarrow> values_map s' t = Some v" using r by (auto split: option.splits if_splits)
  show "values_map s t = Some v \<Longrightarrow> s' = s \<and> e = []" using r by (auto split: option.splits if_splits)
  show "\<not> serial_open s \<Longrightarrow> set e \<subseteq> {Log_unavailable}"
    using r by (auto simp: send_command_def split: option.splits if_splits)
  show "\<not> maestro s \<Longrightarrow> written e = []"
    using r fr by (auto simp: written_send_command terminator_def split: option.splits if_splits)
  show "oc \<noteq> Rejected" using r by (auto split: option.splits if_splits)
qed

lemma send_on_change_all:
  assumes tgt: "map_of targets (name item) = Some t" "0 \<le> t" "t < 256"
    and snd: "sender = handle_servo \<and> 0 \<le> v \<and> v < 256 \<or> sender = set_digital_pin"
    and res: "send_on_change sender item v s = (s', e, oc)"
  shows "maestro s' = maestro s \<and> serial_open s' = serial_open s \<and>
     (\<forall>c. c \<noteq> t \<longrightarrow> values_map s' c = values_map s c) \<and>
     (\<forall>cmd \<in> set (written e). frame_channel cmd = Some t) \<and>
     (oc \<noteq> Done \<longrightarrow> s' = s \<and> e = []) \<and>
     (oc = Done \<longrightarrow> values_map s' t = Some v) \<and>
     (values_map s t = Some v \<longrightarrow> s' = s \<and> e = []) \<and>
     (\<not> serial_open s \<longrightarrow> set e \<subseteq> {Log_unavailable}) \<and>
     (\<not> maestro s \<longrightarrow> written e = []) \<and>
     oc \<noteq> Rejected"
  using send_on_change_props[OF tgt snd res] by blast

lemma axis_body_cases:
  assumes "axis_body cd (key, item) s = (s', e, oc)"
  obtains (missing) "axes cd key = None" "(s', e, oc) = (s, [], Raised LookupError)"
    | (bad) x where "axes cd key = Some x" "x < - 1 \<or> x > 1" "(s', e, oc) = (s, [Log_incorrect x], Rejected)"
    | (good) x where "axes cd key = Some x" "- 1 \<le> x" "x \<le> 1"
        "send_on_change handle_servo item (axis_value item x) s = (s', e, oc)"
  using assms by (auto simp: axis_body_def split: option.splits if_splits)

lemma axis_body_all:
  assumes tgt: "map_of targets (name item) = Some t" "0 \<le> t" "t < 256"
    and res: "axis_body cd (key, item) s = (s', e, oc)"
  shows "maestro s' = maestro s \<and> serial_open s' = serial_open s \<and>
     (\<forall>c. c \<noteq> t \<longrightarrow> values_map s' c = values_map s c) \<and>
     (\<forall>cmd \<in> set (written e). frame_channel cmd = Some t) \<and>
     (oc \<noteq> Done \<longrightarrow> s' = s \<and> written e = []) \<and>
     (oc = Done \<longrightarrow>
        (\<exists>r. axes cd key = Some r \<and> - 1 \<le> r \<and> r \<le> 1 \<and>
             values_map s' t = Some (axis_value item r))) \<and>
     (\<forall>r. axes cd key = Some r \<longrightarrow> values_map s t = Some (axis_value item r) \<longrightarrow>
          s' = s \<and> written e = []) \<and>
     (\<not> serial_open s \<longrightarrow> set e \<subseteq> insert Log_unavailable (range Log_incorrect)) \<and>
     (\<not> maestro s \<longrightarrow> written e = []) \<and>
     (\<forall>r. axes cd key = Some r \<longrightarrow> r < - 1 \<or> r > 1 \<longrightarrow>
          (s', e, oc) = (s, [Log_incorrect r], Rejected))"
  using res
proof (cases rule: axis_body_cases)
  case missing
  then show ?thesis by simp
next
  case (bad x)
  then show ?thesis by auto
next
  case (good x)
  have "0 \<le> axis_value item x \<and> axis_value item x < 256"
    using axis_value_range[OF good(2,3), of item] by simp
  then have "handle_servo = handle_servo \<and> 0 \<le> axis_value item x \<and> axis_value item x < 256
      \<or> handle_servo = set_digital_pin"
    by simp
  from send_on_change_all[OF tgt this good(4)] good(1,2,3) show ?thesis
    by auto
qed

lemma button_body_all:
  assumes tgt: "map_of targets (name item) = Some t" "0 \<le> t" "t < 256"
    and res: "button_body cd (key, item) s = (s', e, oc)"
  shows "maestro s' = maestro s \<and> serial_open s' = serial_open s \<and>
     (\<forall>c. c \<noteq> t \<longrightarrow> values_map s' c = values_map s c) \<and>
     (\<forall>cmd \<in> set (written e). frame_channel cmd = Some t) \<and>
     (oc \<noteq> Done \<longrightarrow> s' = s \<and> e = []) \<and>
     (oc = Done \<longrightarrow> (\<exists>v. buttons cd key = Some v \<and> values_map s' t = Some v)) \<and>
     (\<forall>v. buttons cd key = Some v \<longrightarrow> values_map s t = Some v \<longrightarrow> s' = s \<and> e = []) \<and>
     (\<not> serial_open s \<longrightarrow> set e \<subseteq> {Log_unavailable}) \<and>
     (\<not> maestro s \<longrightarrow> written e = []) \<and>
     oc \<noteq> Rejected"
proof -
  consider (missing) "buttons cd key = None" "(s', e, oc) = (s, [], Raised LookupError)"
    | (present) x where "buttons cd key = Some x"
        "send_on_change set_digital_pin item x s = (s', e, oc)"
    using res by (auto simp: button_body_def split: option.splits)
  then show ?thesis
  proof cases
    case missing
    then show ?thesis by simp
  next
    case (present x)
    have "set_digital_pin = handle_servo \<and> 0 \<le> x \<and> x < 256 \<or> set_digital_pin = set_digital_pin"
      by simp
    from send_on_change_all[OF tgt this present(2)] present(1) show ?thesis
      by auto
  qed
qed

lemma axis_body_props:
  assumes "map_of targets (name item) = Some t" "0 \<le> t" "t < 256"
    and "axis_body cd (key, item) s = (s', e, oc)"
  shows "maestro s' = maestro s" and "serial_open s' = serial_open s"
    and "c \<noteq> t \<Longrightarrow> values_map s' c = values_map s c"
    and "cmd \<in> set (written e) \<Longrightarrow> frame_channel cmd = Some t"
    and "oc \<noteq> Done \<Longrightarrow> s' = s \<and> written e = []"
    and "oc = Done \<Longrightarrow>
           \<exists>r. axes cd key = Some r \<and> - 1 \<le> r \<and> r \<le> 1 \<and> values_map s' t = Some (axis_value item r)"
    and "axes cd key = Some r \<Longrightarrow> values_map s t = Some (axis_value item r) \<Longrightarrow> s' = s \<and> written e = []"
    and "\<not> serial_open s \<Longrightarrow> set e \<subseteq> insert Log_unavailable (range Log_incorrect)"
    and "\<not> maestro s \<Longrightarrow> written e = []"
    and "axes cd key = Some r \<Longrightarrow> r < - 1 \<or> r > 1 \<Longrightarrow> (s', e, oc) = (s, [Log_incorrect r], Rejected)"
  using axis_body_all[OF assms] by blast+

lemma button_body_props:
  assumes "map_of targets (name item) = Some t" "0 \<le> t" "t < 256"
    and "button_body cd (key, item) s = (s', e, oc)"
  shows "maestro s' = maestro s" and "serial_open s' = serial_open s"
    and "c \<noteq> t \<Longrightarrow> values_map s' c = values_map s c"
    and "cmd \<in> set (written e) \<Longrightarrow> frame_channel cmd = Some t"
    and "oc \<noteq> Done \<Longrightarrow> s' = s \<and> e = []"
    and "oc = Done \<Longrightarrow> \<exists>v. buttons cd key = Some v \<and> values_map s' t = Some v"
    and "buttons cd key = Some v \<Longrightarrow> values_map s t = Some v \<Longrightarrow> s' = s \<and> e = []"
    and "\<not> serial_open s \<Longrightarrow> set e \<subseteq> {Log_unavailable}"
    and "\<not> maestro s \<Longrightarrow> written e = []"
    and "oc \<noteq> Rejected"
  using button_body_all[OF assms] by blast+

lemma target_machine: "map_of targets (name machine_binding) = Some 1"
  and target_rudder: "map_of targets (name rudder_binding) = Some 0"
  and target_pump: "map_of targets (name pump_binding) = Some 2"
  by (simp_all add: targets_def)

lemmas machine_props = axis_body_props[OF target_machine, simplified]

lemmas rudder_props = axis_body_props[OF target_rudder, simplified]

lemmas pump_props = button_body_props[OF target_pump, simplified]

subsection \<open>A whole control update\<close>

lemma on_control_update_unfold:
  "on_control_update s cd =
     (case axis_body cd (1, machine_binding) s of
        (s1, e1, Done) \<Rightarrow>
          (case axis_body cd (2, rudder_binding) s1 of
             (s2, e2, Done) \<Rightarrow>
               (case button_body cd (3, pump_binding) s2 of
                  (s3, e3, oc) \<Rightarrow> (s3, e1 @ e2 @ e3, oc))
           | (s2, e2, oc) \<Rightarrow> (s2, e1 @ e2, oc))
      | (s1, e1, oc) \<Rightarrow> (s1, e1, oc))"
  by (auto simp add: on_control_update_def controller_axes_def controller_buttons_def
      split: prod.splits outcome.splits)

lemma on_control_update_cases:
  assumes "on_control_update s cd = (s', e, oc)"
  obtains (stop1) "axis_body cd (1, machine_binding) s = (s', e, oc)" "oc \<noteq> Done"
    | (stop2) s1 e1 e2 where "axis_body cd (1, machine_binding) s = (s1, e1, Done)"
        "axis_body cd (2, rudder_binding) s1 = (s', e2, oc)" "oc \<noteq> Done" "e = e1 @ e2"
    | (full) s1 e1 s2 e2 e3 where "axis_body cd (1, machine_binding) s = (s1, e1, Done)"
        "axis_body cd (2, rudder_binding) s1 = (s2, e2, Done)"
        "button_body cd (3, pump_binding) s2 = (s', e3, oc)" "e = e1 @ e2 @ e3"
  using assms unfolding on_control_update_unfold
  by (auto split: prod.splits outcome.splits)

lemma normalized_unfold:
  "normalized cd =
     (case axes cd 1 of None \<Rightarrow> []
      | Some r \<Rightarrow> if r < - 1 \<or> r > 1 then [] else [(1, axis_value machine_binding r)]) @
     (case axes cd 2 of None \<Rightarrow> []
      | Some r \<Rightarrow> if r < - 1 \<or> r > 1 then [] else [(0, axis_value rudder_binding r)]) @
     (case buttons cd 3 of None \<Rightarrow> [] | Some v \<Rightarrow> [(2, v)])"
  by (simp add: normalized_def controller_axes_def controller_buttons_def targets_def
      split: option.splits)

lemma normalized_iff:
  "(c, v) \<in> set (normalized cd) \<longleftrightarrow>
     (c = 1 \<and> (\<exists>r. axes cd 1 = Some r \<and> - 1 \<le> r \<and> r \<le> 1 \<and> v = axis_value machine_binding r)) \<or>
     (c = 0 \<and> (\<exists>r. axes cd 2 = Some r \<and> - 1 \<le> r \<and> r \<le> 1 \<and> v = axis_value rudder_binding r)) \<or>
     (c = 2 \<and> buttons cd 3 = Some v)"
  unfolding normalized_unfold
  by (cases "axes cd 1"; cases "axes cd 2"; cases "buttons cd 3") auto


lemma on_control_update_closed:
  assumes "on_control_update s cd = (s', e, oc)" "\<not> serial_open s"
  shows "set e \<subseteq> insert Log_unavailable (range Log_incorrect)"
  using assms(1)
proof (cases rule: on_control_update_cases)
  case stop1
  then show ?thesis using machine_props(8)[OF stop1(1)] assms(2) by simp
next
  case (stop2 s1 e1 e2)
  have "\<not> serial_open s1" using machine_props(2)[OF stop2(1)] assms(2) by simp
  then show ?thesis
    using machine_props(8)[OF stop2(1) assms(2)] rudder_props(8)[OF stop2(2)] stop2(4)
    by simp
next
  case (full s1 e1 s2 e2 e3)
  have 1: "\<not> serial_open s1" using machine_props(2)[OF full(1)] assms(2) by simp
  then have 2: "\<not> serial_open s2" using rudder_props(2)[OF full(2)] by simp
  have "set e3 \<subseteq> insert Log_unavailable (range Log_incorrect)"
    using pump_props(8)[OF full(3) 2] by blast
  then show ?thesis
    using machine_props(8)[OF full(1) assms(2)] rudder_props(8)[OF full(2) 1] full(4)
    by simp
qed

lemma written_logs: "set e \<subseteq> insert Log_unavailable (range Log_incorrect) \<Longrightarrow> written e = []"
  by (induction e rule: written.induct) auto

lemma on_control_update_delimited:
  assumes "on_control_update s cd = (s', e, oc)" "\<not> maestro s"
  shows "written e = []"
  using assms(1)
proof (cases rule: on_control_update_cases)
  case stop1
  then show ?thesis using machine_props(9)[OF stop1(1)] assms(2) by simp
next
  case (stop2 s1 e1 e2)
  have "\<not> maestro s1" using machine_props(1)[OF stop2(1)] assms(2) by simp
  then show ?thesis
    using machine_props(9)[OF stop2(1) assms(2)] rudder_props(9)[OF stop2(2)] stop2(4)
    by (simp add: written_append)
next
  case (full s1 e1 s2 e2 e3)
  have 1: "\<not> maestro s1" using machine_props(1)[OF full(1)] assms(2) by simp
  then have 2: "\<not> maestro s2" using rudder_props(1)[OF full(2)] by simp
  show ?thesis
    using machine_props(9)[OF full(1) assms(2)] rudder_props(9)[OF full(2) 1]
      pump_props(9)[OF full(3) 2] full(4)
    by (simp add: written_append)
qed

lemma normalized_cases:
  assumes "(c, v) \<in> set (normalized cd)"
  obtains (c1) x where "c = 1" "axes cd 1 = Some x" "v = axis_value machine_binding x"
    | (c0) x where "c = 0" "axes cd 2 = Some x" "v = axis_value rudder_binding x"
    | (c2) "c = 2" "buttons cd 3 = Some v"
  using assms unfolding normalized_iff by blast

lemma on_control_update_stores:
  assumes "on_control_update s cd = (s', e, Done)" "(c, v) \<in> set (normalized cd)"
  shows "values_map s' c = Some v"
  using assms(1)
proof (cases rule: on_control_update_cases)
  case stop1
  then show ?thesis by simp
next
  case (stop2 s1 e1 e2)
  then show ?thesis by simp
next
  case (full s1 e1 s2 e2 e3)
  from machine_props(6)[OF full(1)] obtain r1 where
    m: "axes cd 1 = Some r1" "values_map s1 1 = Some (axis_value machine_binding r1)" by blast
  from rudder_props(6)[OF full(2)] obtain r2 where
    r: "axes cd 2 = Some r2" "values_map s2 0 = Some (axis_value rudder_binding r2)" by blast
  from pump_props(6)[OF full(3)] obtain b where
    p: "buttons cd 3 = Some b" "values_map s' 2 = Some b" by blast
  from assms(2) show ?thesis
  proof (cases rule: normalized_cases)
    case (c1 x)
    have "values_map s' 1 = values_map s2 1" using pump_props(3)[OF full(3), of 1] by simp
    also have "\<dots> = values_map s1 1" using rudder_props(3)[OF full(2), of 1] by simp
    finally show ?thesis using m c1 by simp
  next
    case (c0 x)
    have "values_map s' 0 = values_map s2 0" using pump_props(3)[OF full(3), of 0] by simp
    then show ?thesis using r c0 by simp
  next
    case c2
    then show ?thesis using p by simp
  qed
qed

lemma on_control_update_unchanged:
  assumes "on_control_update s cd = (s', e, oc)" "(c, v) \<in> set (normalized cd)"
    "values_map s c = Some v"
  shows "\<forall>cmd \<in> set (written e). frame_channel cmd \<noteq> Some c"
proof -
  have ex: "\<exists>s1 e1 o1 s2 e2 o2 e3 o3.
      axis_body cd (1, machine_binding) s = (s1, e1, o1) \<and>
      (e2 = [] \<or> axis_body cd (2, rudder_binding) s1 = (s2, e2, o2)) \<and>
      (e3 = [] \<or> o2 = Done \<and> axis_body cd (2, rudder_binding) s1 = (s2, e2, o2) \<and>
         button_body cd (3, pump_binding) s2 = (s', e3, o3)) \<and>
      e = e1 @ e2 @ e3"
    using assms(1)
  proof (cases rule: on_control_update_cases)
    case stop1
    then show ?thesis by (intro exI[of _ s'] exI[of _ e] exI[of _ oc] exI[of _ "[]"]) simp
  next
    case (stop2 s1 e1 e2)
    then show ?thesis
      by (intro exI[of _ s1] exI[of _ e1] exI[of _ Done] exI[of _ s'] exI[of _ e2]
          exI[of _ oc] exI[of _ "[]"]) simp
  next
    case (full s1 e1 s2 e2 e3)
    then show ?thesis
      by (intro exI[of _ s1] exI[of _ e1] exI[of _ Done] exI[of _ s2] exI[of _ e2]
          exI[of _ Done] exI[of _ e3] exI[of _ oc]) simp
  qed
  then obtain s1 e1 o1 s2 e2 o2 e3 o3 where
    b1: "axis_body cd (1, machine_binding) s = (s1, e1, o1)" and
    b2: "e2 = [] \<or> axis_body cd (2, rudder_binding) s1 = (s2, e2, o2)" and
    b3: "e3 = [] \<or> o2 = Done \<and> axis_body cd (2, rudder_binding) s1 = (s2, e2, o2) \<and>
         button_body cd (3, pump_binding) s2 = (s', e3, o3)" and
    e: "e = e1 @ e2 @ e3" by blast
  have w: "set (written e) = set (written e1) \<union> set (written e2) \<union> set (written e3)"
    by (simp add: e written_append Un_assoc)
  have ch1: "\<forall>cmd \<in> set (written e1). frame_channel cmd = Some 1"
    using machine_props(4)[OF b1] by blast
  have ch0: "\<forall>cmd \<in> set (written e2). frame_channel cmd = Some 0"
    using b2 rudder_props(4) by fastforce
  have ch2: "\<forall>cmd \<in> set (written e3). frame_channel cmd = Some 2"
    using b3 pump_props(4) by fastforce
  from assms(2) show ?thesis
  proof (cases rule: normalized_cases)
    case (c1 x)
    have "written e1 = []" using machine_props(7)[OF b1 c1(2)] assms(3) c1 by simp
    then show ?thesis using w ch0 ch2 c1(1) by auto
  next
    case (c0 x)
    have "written e2 = []"
    proof (cases "e2 = []")
      case True then show ?thesis by simp
    next
      case False
      then have r: "axis_body cd (2, rudder_binding) s1 = (s2, e2, o2)" using b2 by simp
      have "values_map s1 0 = values_map s 0" using machine_props(3)[OF b1, of 0] by simp
      then show ?thesis using rudder_props(7)[OF r c0(2)] assms(3) c0 by simp
    qed
    then show ?thesis using w ch1 ch2 c0(1) by auto
  next
    case c2
    have "written e3 = []"
    proof (cases "e3 = []")
      case True then show ?thesis by simp
    next
      case False
      then have r: "axis_body cd (2, rudder_binding) s1 = (s2, e2, o2)"
        and p: "button_body cd (3, pump_binding) s2 = (s', e3, o3)" using b3 by simp_all
      have "values_map s2 2 = values_map s1 2" using rudder_props(3)[OF r, of 2] by simp
      also have "\<dots> = values_map s 2" using machine_props(3)[OF b1, of 2] by simp
      finally show ?thesis using pump_props(7)[OF p c2(2)] assms(3) c2 by simp
    qed
    then show ?thesis using w ch1 ch0 c2(1) by auto
  qed
qed

lemma machine_axis_in_range:
  assumes "axes cd 1 = Some r1" "- 1 \<le> r1" "r1 \<le> 1" "values_map s 1 = Some old"
  shows "axis_body cd (1, machine_binding) s =
     (s\<lparr>values_map := (values_map s)(1 \<mapsto> axis_value machine_binding r1)\<rparr>,
      (if old \<noteq> axis_value machine_binding r1
       then send_command s
              (if maestro s then [0xFF, 1, word_of_int (axis_value machine_binding r1)]
               else [0x73, 0x2C, 1, 0x2C, word_of_int (axis_value machine_binding r1)])
       else []),
      Done)"
proof -
  have rng: "0 \<le> axis_value machine_binding r1" "axis_value machine_binding r1 < 256"
    using axis_value_range[OF assms(2,3), of machine_binding] by simp_all
  have hs: "handle_servo s 1 (axis_value machine_binding r1) =
     Inr (send_command s
            (if maestro s then [0xFF, 1, word_of_int (axis_value machine_binding r1)]
             else [0x73, 0x2C, 1, 0x2C, word_of_int (axis_value machine_binding r1)]))"
    using handle_servo_ok[of 1 "axis_value machine_binding r1" s] rng by simp
  have same: "s\<lparr>values_map := (values_map s)(1 \<mapsto> old)\<rparr> = s"
    using assms(4) by (simp add: map_upd_triv)
  show ?thesis
  proof (cases "old = axis_value machine_binding r1")
    case True
    then show ?thesis
      using assms same target_machine by (simp add: axis_body_def send_on_change_def)
  next
    case False
    then show ?thesis
      using assms hs target_machine by (simp add: axis_body_def send_on_change_def)
  qed
qed

subsection \<open>The component over a sequence of events\<close>







subsection \<open>The sample inputs\<close>

lemma mr_linked_flags: "maestro mr_linked" "serial_open mr_linked"
  by (simp_all add: mr_linked_def opened_def Let_def mr_init_def)


lemmas eval_defs = on_control_update_def axis_body_def button_body_def send_on_change_def
  handle_servo_def set_digital_pin_def send_command_def bytes1_def axis_value_def get_flags_def
  py_int_def targets_def controller_axes_def controller_buttons_def mr_init_def
  opened_def machine_channel_def rudder_channel_def pump_channel_def Let_def
  mr_linked_def update_centred_def update_half_def update_bad_rudder_def update_bad_machine_def
  normalized_def frame_channel_def

section \<open>The claims\<close>

subsection \<open>Session arbiter\<close>

text \<open>
  Claim C1, as the specification states it: in the state where client \<open>A\<close> is in control, a
  \<open>control_request\<close> of the same client is answered with granted. The handler grants only
  when nobody is in control; it does not compare the requester with the holder. With
  \<open>''a''\<close> in control, the request of \<open>''a''\<close> is answered with \<open>data = False\<close>.
\<close>

theorem rerequest_by_holder_granted_counterexample:
  "control_request \<lparr>remote_controller = Some ''a''\<rparr> ''a''
     = (\<lparr>remote_controller = Some ''a''\<rparr>,
        [Send ''a'' ''control_request'' False :: controldata rc_event])"
  by (simp add: control_request_def truthy_def)

text \<open>
  Claim C1, amended: while a client \<open>A\<close> (a non-empty uuid) is in control, a
  \<open>control_request\<close> of the same client \<open>A\<close> is answered with denied (\<open>data = False\<close>)
  and the state stays as it is.
\<close>

theorem rerequest_by_holder_denied:
  "remote_controller m = Some A \<Longrightarrow> A \<noteq> [] \<Longrightarrow>
   control_request m A = (m, [Send A ''control_request'' False])"
  by (simp add: control_request_def truthy_def)

theorem rerequest_by_holder_denied_witness:
  "remote_controller \<lparr>remote_controller = Some ''a''\<rparr> = Some ''a'' \<and> ''a'' \<noteq> [] \<and>
   control_request \<lparr>remote_controller = Some ''a''\<rparr> ''a''
     = (\<lparr>remote_controller = Some ''a''\<rparr>,
        [Send ''a'' ''control_request'' False :: controldata rc_event])"
  using rerequest_by_holder_denied[of "\<lparr>remote_controller = Some ''a''\<rparr>" "''a''"]
  by simp

text \<open>
  Claim C5: from the initial state, the request of \<open>A\<close> is granted and \<open>A\<close> is in control; the
  request of \<open>B\<close> that follows is denied and \<open>A\<close> stays in control; the release of \<open>A\<close>
  is acknowledged and nobody is in control; control data of \<open>B\<close> that follows is not handed
  on to the machineroom (only the warning is logged) and the state does not change. A client
  uuid is a non-empty string (the empty string counts as "nobody" in the test of
  \<open>control_request\<close>); the statement holds for every \<open>B\<close>, equal to \<open>A\<close> or not.
\<close>

theorem arbiter_scenario:
  assumes "A \<noteq> []"
  shows "control_request rcm_init A
           = (\<lparr>remote_controller = Some A\<rparr>, [Send A ''control_request'' True])
       \<and> control_request \<lparr>remote_controller = Some A\<rparr> B
           = (\<lparr>remote_controller = Some A\<rparr>, [Send B ''control_request'' False])
       \<and> control_release \<lparr>remote_controller = Some A\<rparr> A
           = (rcm_init, [Send A ''control_release'' True])
       \<and> data rcm_init B payload = (rcm_init, [Log_invalid_data])"
  using assms
  by (simp add: control_request_def control_release_def data_def truthy_def rcm_init_def)

theorem arbiter_scenario_witness:
  "''a'' \<noteq> [] \<and>
   control_request rcm_init ''a''
     = (\<lparr>remote_controller = Some ''a''\<rparr>,
        [Send ''a'' ''control_request'' True :: controldata rc_event]) \<and>
   control_request \<lparr>remote_controller = Some ''a''\<rparr> ''b''
     = (\<lparr>remote_controller = Some ''a''\<rparr>,
        [Send ''b'' ''control_request'' False :: controldata rc_event]) \<and>
   control_release \<lparr>remote_controller = Some ''a''\<rparr> ''a''
     = (rcm_init, [Send ''a'' ''control_release'' True :: controldata rc_event]) \<and>
   data rcm_init ''b'' update_half = (rcm_init, [Log_invalid_data])"
  using arbiter_scenario[of "''a''" "''b''" update_half]
  by simp

subsection \<open>Axis values\<close>

text \<open>
  Claim C4, as the specification states it: the axis value is
  \<open>clamp(128 + round(raw * 128), 0, 255)\<close>, rounded to nearest. The code converts with
  \<open>int()\<close>, which drops the fraction: for the rudder axis (not inverted) at
  \<open>raw = 3/512\<close> the product is \<open>0.75\<close>, the code's value is 128 and the rounded one 129.
\<close>

theorem axis_rounding_counterexample:
  "- 1 \<le> (3 / 512 :: real) \<and> (3 / 512 :: real) \<le> 1 \<and>
   ''inverted'' \<notin> set (get_flags rudder_binding) \<and>
   axis_value rudder_binding (3 / 512) = 128 \<and> spec_axis_value False (3 / 512) = 129"
  by (simp add: axis_value_def get_flags_def py_int_def spec_axis_value_def clamp_def round_def)

text \<open>
  Claim C4, amended: for every \<open>raw\<close> in \<open>[-1, 1]\<close> the value is
  \<open>clamp(128 + trunc(raw * 128), 0, 255)\<close> for a binding that is not inverted and
  \<open>clamp(128 - trunc(raw * 128), 0, 255)\<close> for an inverted one, where \<open>trunc\<close> drops the
  fraction (rounds towards zero). The code takes the minimum with 255 only; the lower bound
  is never passed on this range.
\<close>

theorem axis_value_truncates:
  assumes "- 1 \<le> raw" "raw \<le> 1"
  shows "axis_value item raw =
     (if ''inverted'' \<in> set (get_flags item)
      then clamp (128 - py_int (raw * 128)) 0 255
      else clamp (128 + py_int (raw * 128)) 0 255)"
proof -
  have "- 128 \<le> py_int (raw * 128) \<and> py_int (raw * 128) \<le> 128"
    using assms by (intro py_int_bounds) simp_all
  then show ?thesis by (auto simp: axis_value_def clamp_def)
qed

theorem axis_value_truncates_witness:
  "- 1 \<le> (3 / 512 :: real) \<and> (3 / 512 :: real) \<le> 1 \<and>
   axis_value rudder_binding (3 / 512) = clamp (128 + py_int (3 / 512 * 128)) 0 255 \<and>
   axis_value machine_binding (3 / 512) = clamp (128 - py_int (3 / 512 * 128)) 0 255 \<and>
   clamp (128 + py_int (3 / 512 * 128)) 0 255 = 128"
  using axis_value_truncates[of "3 / 512" rudder_binding]
    axis_value_truncates[of "3 / 512" machine_binding]
  by (simp add: get_flags_def py_int_def clamp_def)

text \<open>
  Claim C9: on \<open>[-1, 1]\<close> the value of an axis that is not inverted lies in
  \<open>[0, 255]\<close> and does not decrease when \<open>raw\<close> grows; the value of an inverted axis lies in
  \<open>[0, 255]\<close> and does not increase.
\<close>

theorem axis_value_monotone:
  assumes "- 1 \<le> raw" "raw \<le> raw'" "raw' \<le> 1"
  shows "(''inverted'' \<notin> set (get_flags item) \<longrightarrow>
            0 \<le> axis_value item raw \<and> axis_value item raw \<le> axis_value item raw' \<and>
            axis_value item raw' \<le> 255) \<and>
         (''inverted'' \<in> set (get_flags item) \<longrightarrow>
            0 \<le> axis_value item raw' \<and> axis_value item raw' \<le> axis_value item raw \<and>
            axis_value item raw \<le> 255)"
proof -
  have m: "py_int (raw * 128) \<le> py_int (raw' * 128)"
    using assms by (intro py_int_mono) simp
  have r: "0 \<le> axis_value item raw \<and> axis_value item raw \<le> 255"
    using assms by (intro axis_value_range) simp_all
  have r': "0 \<le> axis_value item raw' \<and> axis_value item raw' \<le> 255"
    using assms by (intro axis_value_range) simp_all
  from m r r' show ?thesis by (auto simp: axis_value_def)
qed

theorem axis_value_monotone_witness:
  "- 1 \<le> (- 1 / 2 :: real) \<and> (- 1 / 2 :: real) \<le> 1 / 2 \<and> (1 / 2 :: real) \<le> 1 \<and>
   ''inverted'' \<notin> set (get_flags rudder_binding) \<and>
   ''inverted'' \<in> set (get_flags machine_binding) \<and>
   axis_value rudder_binding (- 1 / 2) = 64 \<and> axis_value rudder_binding (1 / 2) = 192 \<and>
   axis_value rudder_binding (- 1 / 2) \<le> axis_value rudder_binding (1 / 2) \<and>
   axis_value machine_binding (- 1 / 2) = 192 \<and> axis_value machine_binding (1 / 2) = 64 \<and>
   axis_value machine_binding (1 / 2) \<le> axis_value machine_binding (- 1 / 2)"
  using axis_value_monotone[of "- 1 / 2" "1 / 2" rudder_binding]
    axis_value_monotone[of "- 1 / 2" "1 / 2" machine_binding]
  by (simp add: get_flags_def axis_value_def py_int_def)

subsection \<open>Command frames\<close>

text \<open>
  Claim C8: under the compact protocol, a servo command for a channel byte and a value that
  is not negative is the frame \<open>[0xFF, channel, min(value, 255)]\<close>; it has three bytes, so
  with the link open it passes the length check and is written. For channel 1 and value 300
  the frame is \<open>[0xFF, 1, 255]\<close>.
\<close>

theorem compact_servo_frame:
  assumes "maestro s" "0 \<le> channel" "channel < 256" "0 \<le> val"
  shows "handle_servo s channel val =
           Inr (send_command s [0xFF, word_of_int channel, word_of_int (min val 255)]) \<and>
         length [0xFF, word_of_int channel, word_of_int (min val 255) :: byte] = 3 \<and>
         uint (word_of_int (min val 255) :: byte) = min val 255 \<and>
         (serial_open s \<longrightarrow>
            send_command s [0xFF, word_of_int channel, word_of_int (min val 255)] =
              [Write [0xFF, word_of_int channel, word_of_int (min val 255)]])"
  using assms
  by (simp add: handle_servo_def bytes1_def send_command_def Let_def uint_byte)

theorem compact_servo_frame_witness:
  "maestro mr_linked \<and> serial_open mr_linked \<and> (0::int) \<le> 1 \<and> (1::int) < 256 \<and> (0::int) \<le> 300 \<and>
   handle_servo mr_linked 1 300 = Inr [Write [0xFF, 1, 255]]"
  using compact_servo_frame[of mr_linked 1 300]
  by (simp add: mr_linked_flags)

text \<open>
  Claim C10: with the link open, a command is written exactly when its final length (with
  the terminator in the delimited mode) is 3, in both modes, and is logged as illegal
  otherwise. In the delimited mode a servo command and a pin command are six bytes long
  with the terminator: each is logged as illegal and not written (or \<open>bytes\<close> raises
  \<open>ValueError\<close> before anything is sent).
\<close>

theorem length_check_in_both_modes:
  assumes "serial_open s"
  shows "send_command s command =
           (if length (if maestro s then command else command @ terminator) = 3
            then [Write (if maestro s then command else command @ terminator)]
            else [Log_illegal (if maestro s then command else command @ terminator)]) \<and>
         (\<not> maestro s \<longrightarrow>
            handle_servo s channel val =
              (if 0 \<le> channel \<and> channel < 256 \<and> 0 \<le> val \<and> val < 256
               then Inr [Log_illegal [0x73, 0x2C, word_of_int channel, 0x2C, word_of_int val, 13]]
               else Inl ValueError) \<and>
            set_digital_pin s p val =
              (if 0 \<le> p \<and> p < 256
               then Inr [Log_illegal [0x70, 0x2C, word_of_int p, 0x2C,
                                      if val \<ge> 127 then 255 else 0, 13]]
               else Inl ValueError))"
  using assms
  by (simp add: send_command_def handle_servo_def set_digital_pin_def bytes1_def Let_def
      servo_def pin_def sep_def terminator_def)

theorem length_check_in_both_modes_witness:
  "serial_open (mr_linked\<lparr>maestro := False\<rparr>) \<and> \<not> maestro (mr_linked\<lparr>maestro := False\<rparr>) \<and>
   send_command (mr_linked\<lparr>maestro := False\<rparr>) [0x76] = [Log_illegal [0x76, 13]] \<and>
   handle_servo (mr_linked\<lparr>maestro := False\<rparr>) 1 64 =
     Inr [Log_illegal [0x73, 0x2C, 1, 0x2C, 64, 13]] \<and>
   set_digital_pin (mr_linked\<lparr>maestro := False\<rparr>) 2 200 =
     Inr [Log_illegal [0x70, 0x2C, 2, 0x2C, 255, 13]]"
  using length_check_in_both_modes[of "mr_linked\<lparr>maestro := False\<rparr>" "[0x76]" 1 64 2]
    length_check_in_both_modes[of "mr_linked\<lparr>maestro := False\<rparr>" "[0x76]" 1 200 2]
  by (simp add: mr_linked_flags terminator_def)

subsection \<open>Control updates\<close>

text \<open>
  Claim C2, as the specification states it: an update processed while the link is not open
  leaves the map of stored values unchanged. The handler stores the new value after every
  call of the sender, whether the command was transmitted or not: in the initial state
  (link closed, every value 0) the centred update stores 128 for the machine channel.
\<close>

theorem closed_link_state_unchanged_counterexample:
  "\<not> serial_open mr_init \<and> values_map mr_init 1 = Some 0 \<and>
   snd (on_control_update mr_init update_centred) = ([Log_unavailable, Log_unavailable], Done) \<and>
   values_map (fst (on_control_update mr_init update_centred)) 1 = Some 128"
  by (simp add: eval_defs)

text \<open>
  Claim C2, amended: for every control update processed while the link is not open, every
  send is a no-op (nothing is written to the port, only warnings are logged); the stored
  values are updated all the same: after an update that runs to its end, every channel
  holds the value the update gave for it.
\<close>

theorem closed_link_sends_nothing:
  assumes "\<not> serial_open s"
  shows "case on_control_update s cd of
           (s', effs, oc) \<Rightarrow>
             written effs = [] \<and>
             set effs \<subseteq> insert Log_unavailable (range Log_incorrect) \<and>
             (oc = Done \<longrightarrow> (\<forall>(c, v) \<in> set (normalized cd). values_map s' c = Some v))"
proof -
  obtain s' effs oc where r: "on_control_update s cd = (s', effs, oc)"
    by (cases "on_control_update s cd") auto
  have l: "set effs \<subseteq> insert Log_unavailable (range Log_incorrect)"
    using on_control_update_closed[OF r assms] .
  have "written effs = []" using l by (rule written_logs)
  moreover have "\<forall>(c, v) \<in> set (normalized cd). values_map s' c = Some v" if "oc = Done"
    using on_control_update_stores[of s cd s' effs] r that by auto
  ultimately show ?thesis using r l by simp
qed

theorem closed_link_sends_nothing_witness:
  "\<not> serial_open mr_init \<and>
   snd (on_control_update mr_init update_centred) = ([Log_unavailable, Log_unavailable], Done) \<and>
   written (fst (snd (on_control_update mr_init update_centred))) = [] \<and>
   (1, 128) \<in> set (normalized update_centred) \<and>
   values_map (fst (on_control_update mr_init update_centred)) 1 = Some 128"
  using closed_link_sends_nothing[of mr_init update_centred]
  by (simp add: eval_defs)

text \<open>
  Claim C3, as the specification states it: an update with an axis out of range is discarded
  as a whole, whichever axis it is. The range check is made inside the loop, axis by axis:
  when the rudder axis (the second one) is out of range, the machine axis has been sent
  and stored before the handler returns.
\<close>

theorem out_of_range_discards_all_counterexample:
  "axes update_bad_rudder 2 = Some 2 \<and> (1::real) < 2 \<and>
   snd (on_control_update mr_linked update_bad_rudder)
     = ([Write [0xFF, 1, 64], Log_incorrect 2], Rejected) \<and>
   values_map mr_linked 1 = Some 0 \<and>
   values_map (fst (on_control_update mr_linked update_bad_rudder)) 1 = Some 64"
  by (simp add: eval_defs)

text \<open>
  Claim C3, amended: the update is processed up to the first axis out of range and not
  further. When the first axis of the iteration (axis 1, machine) is out of range, the whole
  update is discarded: no frame, no change of the stored values. When axis 1 is in range
  and axis 2 (rudder) is out of range, the machine axis has been processed when the handler
  returns: its new value is stored, and its command has been sent if the value differs from
  the one stored before; nothing is written or stored for the rudder or for any button.
\<close>

theorem out_of_range_stops_update:
  "(axes cd 1 = Some r1 \<and> (r1 < - 1 \<or> 1 < r1) \<longrightarrow>
      on_control_update s cd = (s, [Log_incorrect r1], Rejected)) \<and>
   (axes cd 1 = Some r1 \<and> - 1 \<le> r1 \<and> r1 \<le> 1 \<and> axes cd 2 = Some r2 \<and> (r2 < - 1 \<or> 1 < r2) \<longrightarrow>
      (case on_control_update s cd of
         (s', effs, oc) \<Rightarrow>
           oc \<noteq> Done \<and>
           (\<forall>c. c \<noteq> 1 \<longrightarrow> values_map s' c = values_map s c) \<and>
           (\<forall>cmd \<in> set (written effs). frame_channel cmd = Some 1)) \<and>
      (values_map s 1 = Some old \<longrightarrow>
         on_control_update s cd =
           (s\<lparr>values_map := (values_map s)(1 \<mapsto> axis_value machine_binding r1)\<rparr>,
            (if old \<noteq> axis_value machine_binding r1
             then send_command s
                    (if maestro s then [0xFF, 1, word_of_int (axis_value machine_binding r1)]
                     else [0x73, 0x2C, 1, 0x2C, word_of_int (axis_value machine_binding r1)])
             else []) @ [Log_incorrect r2],
            Rejected)))"
proof (intro conjI impI)
  assume a: "axes cd 1 = Some r1 \<and> (r1 < - 1 \<or> 1 < r1)"
  obtain s1 e1 o1 where b: "axis_body cd (1, machine_binding) s = (s1, e1, o1)"
    by (cases "axis_body cd (1, machine_binding) s") auto
  from machine_props(10)[OF b, of r1] a have "s1 = s \<and> e1 = [Log_incorrect r1] \<and> o1 = Rejected"
    by simp
  with b show "on_control_update s cd = (s, [Log_incorrect r1], Rejected)"
    by (simp add: on_control_update_unfold)
next
  assume a: "axes cd 1 = Some r1 \<and> - 1 \<le> r1 \<and> r1 \<le> 1 \<and> axes cd 2 = Some r2 \<and> (r2 < - 1 \<or> 1 < r2)"
  obtain s' effs oc where r: "on_control_update s cd = (s', effs, oc)"
    by (cases "on_control_update s cd") auto
  from r have "oc \<noteq> Done \<and>
           (\<forall>c. c \<noteq> 1 \<longrightarrow> values_map s' c = values_map s c) \<and>
           (\<forall>cmd \<in> set (written effs). frame_channel cmd = Some 1)"
  proof (cases rule: on_control_update_cases)
    case stop1
    then show ?thesis using machine_props(5)[OF stop1(1)] by simp
  next
    case (stop2 s1 e1 e2)
    have "s' = s1 \<and> written e2 = []" using rudder_props(5)[OF stop2(2,3)] .
    moreover have "\<forall>c. c \<noteq> 1 \<longrightarrow> values_map s1 c = values_map s c"
      using machine_props(3)[OF stop2(1)] by blast
    moreover have "\<forall>cmd \<in> set (written e1). frame_channel cmd = Some 1"
      using machine_props(4)[OF stop2(1)] by blast
    ultimately show ?thesis using stop2(3,4) by (simp add: written_append)
  next
    case (full s1 e1 s2 e2 e3)
    from rudder_props(10)[OF full(2), of r2] a show ?thesis by simp
  qed
  with r show "case on_control_update s cd of
         (s', effs, oc) \<Rightarrow>
           oc \<noteq> Done \<and>
           (\<forall>c. c \<noteq> 1 \<longrightarrow> values_map s' c = values_map s c) \<and>
           (\<forall>cmd \<in> set (written effs). frame_channel cmd = Some 1)"
    by simp
next
  assume a: "axes cd 1 = Some r1 \<and> - 1 \<le> r1 \<and> r1 \<le> 1 \<and> axes cd 2 = Some r2 \<and> (r2 < - 1 \<or> 1 < r2)"
    and old: "values_map s 1 = Some old"
  have m: "axis_body cd (1, machine_binding) s =
     (s\<lparr>values_map := (values_map s)(1 \<mapsto> axis_value machine_binding r1)\<rparr>,
      (if old \<noteq> axis_value machine_binding r1
       then send_command s
              (if maestro s then [0xFF, 1, word_of_int (axis_value machine_binding r1)]
               else [0x73, 0x2C, 1, 0x2C, word_of_int (axis_value machine_binding r1)])
       else []),
      Done)"
    using machine_axis_in_range[of cd r1 s old] a old by simp
  have rd: "axis_body cd (2, rudder_binding) s1 = (s1, [Log_incorrect r2], Rejected)" for s1
    using a by (auto simp: axis_body_def)
  show "on_control_update s cd =
           (s\<lparr>values_map := (values_map s)(1 \<mapsto> axis_value machine_binding r1)\<rparr>,
            (if old \<noteq> axis_value machine_binding r1
             then send_command s
                    (if maestro s then [0xFF, 1, word_of_int (axis_value machine_binding r1)]
                     else [0x73, 0x2C, 1, 0x2C, word_of_int (axis_value machine_binding r1)])
             else []) @ [Log_incorrect r2],
            Rejected)"
    unfolding on_control_update_unfold m rd by simp
qed

theorem out_of_range_stops_update_witness:
  "axes update_bad_machine 1 = Some (- 2) \<and> (- 2 :: real) < - 1 \<and>
   on_control_update mr_linked update_bad_machine = (mr_linked, [Log_incorrect (- 2)], Rejected) \<and>
   axes update_bad_rudder 1 = Some (1 / 2) \<and> - 1 \<le> (1 / 2 :: real) \<and> (1 / 2 :: real) \<le> 1 \<and>
   axes update_bad_rudder 2 = Some 2 \<and> (1 :: real) < 2 \<and>
   values_map mr_linked 1 = Some 0 \<and>
   on_control_update mr_linked update_bad_rudder =
     (mr_linked\<lparr>values_map := (values_map mr_linked)(1 \<mapsto> 64)\<rparr>,
      [Write [0xFF, 1, 64], Log_incorrect 2], Rejected) \<and>
   frame_channel [0xFF, 1, 64] = Some 1 \<and>
   values_map (fst (on_control_update mr_linked update_bad_rudder)) 0 = values_map mr_linked 0 \<and>
   values_map (fst (on_control_update mr_linked update_bad_rudder)) 2 = values_map mr_linked 2"
proof -
  have 1: "axes update_bad_machine 1 = Some (- 2)" by (simp add: update_bad_machine_def)
  have 2: "on_control_update mr_linked update_bad_machine = (mr_linked, [Log_incorrect (- 2)], Rejected)"
    using out_of_range_stops_update[of update_bad_machine "- 2" mr_linked 0 0] 1 by simp
  have 3: "axes update_bad_rudder 1 = Some (1 / 2)" "axes update_bad_rudder 2 = Some 2"
    by (simp_all add: update_bad_rudder_def)
  have 4: "values_map mr_linked 1 = Some 0"
    by (simp add: mr_linked_def opened_def Let_def mr_init_def targets_def)
  have 5: "frame_channel [0xFF, 1, 64] = Some 1" by (simp add: frame_channel_def)
  have 6: "axis_value machine_binding (1 / 2) = 64"
    by (simp add: axis_value_def get_flags_def py_int_def)
  note t = out_of_range_stops_update[of update_bad_rudder "1 / 2" mr_linked 2 0]
  from t 3 have 7: "\<forall>c. c \<noteq> 1 \<longrightarrow>
      values_map (fst (on_control_update mr_linked update_bad_rudder)) c = values_map mr_linked c"
    by (simp add: case_prod_beta)
  from t 3 4 6 have 8: "on_control_update mr_linked update_bad_rudder =
     (mr_linked\<lparr>values_map := (values_map mr_linked)(1 \<mapsto> 64)\<rparr>,
      [Write [0xFF, 1, 64], Log_incorrect 2], Rejected)"
    by (simp add: send_command_def mr_linked_flags)
  from 7 have 9: "values_map (fst (on_control_update mr_linked update_bad_rudder)) 0 = values_map mr_linked 0"
    "values_map (fst (on_control_update mr_linked update_bad_rudder)) 2 = values_map mr_linked 2"
    by simp_all
  show ?thesis using 1 2 3 4 5 8 9 by simp
qed

text \<open>
  Claim C6: when a control update that runs to its end gives the pair \<open>(c, v)\<close> and the
  next control update gives the same pair, the value \<open>v\<close> is stored for \<open>c\<close> after the first
  update and the second update writes no frame for channel \<open>c\<close>. (A frame is sent only
  where the new value differs from the stored one, and the new value is stored after the
  send.)
\<close>

theorem send_on_change_only:
  assumes "on_control_update s cd1 = (s1, effs1, Done)"
    and "on_control_update s1 cd2 = (s2, effs2, oc2)"
    and "(c, v) \<in> set (normalized cd1)" and "(c, v) \<in> set (normalized cd2)"
  shows "values_map s1 c = Some v \<and> (\<forall>cmd \<in> set (written effs2). frame_channel cmd \<noteq> Some c)"
proof -
  have "values_map s1 c = Some v"
    using on_control_update_stores[OF assms(1,3)] .
  then show ?thesis
    using on_control_update_unchanged[OF assms(2,4)] by simp
qed

theorem send_on_change_only_witness:
  "on_control_update mr_linked update_half
     = (fst (on_control_update mr_linked update_half),
        [Write [0xFF, 1, 64], Write [0xFF, 0, 128], Write [0xFF, 2, 0]], Done) \<and>
   on_control_update (fst (on_control_update mr_linked update_half)) update_half
     = (fst (on_control_update mr_linked update_half), [], Done) \<and>
   (1, 64) \<in> set (normalized update_half) \<and>
   values_map (fst (on_control_update mr_linked update_half)) 1 = Some 64"
proof -
  have 1: "on_control_update mr_linked update_half
     = (fst (on_control_update mr_linked update_half),
        [Write [0xFF, 1, 64], Write [0xFF, 0, 128], Write [0xFF, 2, 0]], Done)"
    by (rule prod_eqI) (simp_all add: eval_defs)
  have 2: "on_control_update (fst (on_control_update mr_linked update_half)) update_half
     = (fst (on_control_update mr_linked update_half), [], Done)"
    by (rule prod_eqI) (simp_all add: eval_defs)
  have 3: "(1, 64) \<in> set (normalized update_half)"
    by (simp add: eval_defs)
  from send_on_change_only[OF 1 2 3 3] 1 2 3 show ?thesis by simp
qed

subsection \<open>Startup\<close>




end
